theory Spec2Isabelle
  imports Main "HOL-Library.Multiset" "HOL-Library.Sublist"
begin

section \<open>Python string primitives used by the segmenter\<close>

text \<open>
  Message content is modelled as ASCII text: a \<open>string\<close> is a list of characters, one per
  code point. The primitives below are the Python string methods that
  \<open>display_chat_messages\<close> calls, restricted to that alphabet.
\<close>

definition nl :: char where
  "nl = CHR 0x0A"

text \<open>\<open>content.split('\n')\<close>: the pieces between newlines; the empty string gives one empty piece.\<close>

fun split_lines :: "string \<Rightarrow> string list" where
  "split_lines [] = [[]]"
| "split_lines (c # cs) =
     (if c = nl then [] # split_lines cs
      else (case split_lines cs of
              l # ls \<Rightarrow> (c # l) # ls
            | [] \<Rightarrow> [[c]]))"

text \<open>\<open>str.upper()\<close> on ASCII: the letters a..z move to A..Z, every other character stays.\<close>

definition upper_char :: "char \<Rightarrow> char" where
  "upper_char c =
     (if (97::nat) \<le> of_char c \<and> of_char c \<le> (122::nat)
      then char_of (of_char c - (32::nat)) else c)"

definition upper :: "string \<Rightarrow> string" where
  "upper s = map upper_char s"

text \<open>\<open>s.startswith(p)\<close> and \<open>s.endswith(p)\<close>.\<close>

definition startswith :: "string \<Rightarrow> string \<Rightarrow> bool" where
  "startswith p s = (take (length p) s = p)"

definition endswith :: "string \<Rightarrow> string \<Rightarrow> bool" where
  "endswith p s = (length p \<le> length s \<and> drop (length s - length p) s = p)"

text \<open>\<open>sub in s\<close>: \<open>sub\<close> occurs in \<open>s\<close> as a contiguous substring.\<close>

fun contains :: "string \<Rightarrow> string \<Rightarrow> bool" where
  "contains sub [] = (sub = [])"
| "contains sub (c # cs) = (startswith sub (c # cs) \<or> contains sub cs)"

text \<open>
  \<open>str.isspace()\<close> on one ASCII character: tab, line feed, vertical tab, form feed,
  carriage return, the four separators 0x1C..0x1F and the space.
\<close>

definition is_space :: "char \<Rightarrow> bool" where
  "is_space c =
     (((9::nat) \<le> of_char c \<and> of_char c \<le> (13::nat))
      \<or> ((28::nat) \<le> of_char c \<and> of_char c \<le> (32::nat)))"

text \<open>\<open>s.strip()\<close>: whitespace removed from both ends.\<close>

definition strip :: "string \<Rightarrow> string" where
  "strip s = rev (dropWhile is_space (rev (dropWhile is_space s)))"

section \<open>The segmenter of \<open>display_chat_messages\<close>\<close>

datatype kind = Progress | Final

text \<open>The two agent vocabularies written out in the loop body.\<close>

definition progress_agents :: "string list" where
  "progress_agents =
     [''SUPERVISOR'', ''RESEARCH_AGENT'', ''DATA_AGENT'', ''PREDICTION_AGENT'']"

definition final_agents :: "string list" where
  "final_agents = [''PLANNING_AGENT'', ''REPORT_AGENT'']"

text \<open>\<open>any(agent in line_upper for agent in agents)\<close>.\<close>

definition any_agent_in :: "string list \<Rightarrow> string \<Rightarrow> bool" where
  "any_agent_in agents line_upper = list_ex (\<lambda>agent. contains agent line_upper) agents"

text \<open>\<open>line.startswith('**') and line.endswith('**')\<close>, on the line as split, untrimmed.\<close>

definition bold_delimited :: "string \<Rightarrow> bool" where
  "bold_delimited line = (startswith ''**'' line \<and> endswith ''**'' line)"

text \<open>
  The loop state: the section in effect and the two accumulators. The vocabularies are
  parameters \<open>pm\<close> (progress) and \<open>fm\<close> (final); the program runs the loop at
  \<open>progress_agents\<close> and \<open>final_agents\<close>.
\<close>

record seg_state =
  current_section :: kind
  progress_content :: string
  final_content :: string

definition seg_init :: seg_state where
  "seg_init = \<lparr>current_section = Final, progress_content = [], final_content = []\<rparr>"

definition next_section :: "string list \<Rightarrow> string list \<Rightarrow> kind \<Rightarrow> string \<Rightarrow> kind" where
  "next_section pm fm cur line =
     (let line_upper = upper line in
      if bold_delimited line then
        (if any_agent_in pm line_upper then Progress
         else if any_agent_in fm line_upper then Final
         else cur)
      else cur)"

definition add_line :: "kind \<Rightarrow> string \<Rightarrow> seg_state \<Rightarrow> seg_state" where
  "add_line sec line st =
     (if sec = Progress
      then st\<lparr>current_section := sec, progress_content := progress_content st @ line @ [nl]\<rparr>
      else st\<lparr>current_section := sec, final_content := final_content st @ line @ [nl]\<rparr>)"

definition process_line :: "string list \<Rightarrow> string list \<Rightarrow> seg_state \<Rightarrow> string \<Rightarrow> seg_state" where
  "process_line pm fm st line = add_line (next_section pm fm (current_section st) line) line st"

definition scan_lines :: "string list \<Rightarrow> string list \<Rightarrow> string list \<Rightarrow> seg_state" where
  "scan_lines pm fm ls = foldl (process_line pm fm) seg_init ls"

text \<open>
  What is rendered for an assistant message with content: the final text first, then the
  progress text, each stripped and each only when something is left after stripping.
\<close>

definition emit :: "seg_state \<Rightarrow> (kind \<times> string) list" where
  "emit st =
     (if strip (final_content st) \<noteq> [] then [(Final, strip (final_content st))] else [])
     @ (if strip (progress_content st) \<noteq> [] then [(Progress, strip (progress_content st))] else [])"

definition segment_with :: "string list \<Rightarrow> string list \<Rightarrow> string \<Rightarrow> (kind \<times> string) list" where
  "segment_with pm fm msg = emit (scan_lines pm fm (split_lines msg))"

definition segment :: "string \<Rightarrow> (kind \<times> string) list" where
  "segment msg = segment_with progress_agents final_agents msg"

text \<open>
  One message of the chat: a dictionary with the keys \<open>role\<close> and \<open>content\<close>. Rendering
  it gives the list of calls made: \<open>Markdown t\<close> for \<open>st.markdown(t)\<close> in the main area and
  \<open>Expander t\<close> for the same call inside the collapsed progress expander. Only an assistant
  message with non-empty content enters the segmenter; anything else is rendered as it is.
\<close>

record message =
  role :: string
  content :: string

datatype render = Markdown string | Expander string

fun render_of :: "kind \<times> string \<Rightarrow> render" where
  "render_of (Final, t) = Markdown t"
| "render_of (Progress, t) = Expander t"

definition display_message :: "message \<Rightarrow> render list" where
  "display_message m =
     (if role m = ''assistant'' \<and> content m \<noteq> []
      then map render_of (segment (content m))
      else [Markdown (content m)])"

definition display_chat_messages :: "message list \<Rightarrow> render list list" where
  "display_chat_messages messages = map display_message messages"

text \<open>Vocabulary of the properties: the lines a buffer holds, blank lines, header lines.\<close>

definition with_nl :: "string \<Rightarrow> string" where
  "with_nl line = line @ [nl]"

definition buffer_lines :: "string \<Rightarrow> string list" where
  "buffer_lines buf = butlast (split_lines buf)"

definition non_blank :: "string \<Rightarrow> bool" where
  "non_blank line = (strip line \<noteq> [])"

definition is_header_line :: "string list \<Rightarrow> string list \<Rightarrow> string \<Rightarrow> bool" where
  "is_header_line pm fm line =
     (bold_delimited line \<and> (any_agent_in pm (upper line) \<or> any_agent_in fm (upper line)))"

definition no_header_lines :: "string list \<Rightarrow> string list \<Rightarrow> string \<Rightarrow> bool" where
  "no_header_lines pm fm msg = list_all (\<lambda>l. \<not> is_header_line pm fm l) (split_lines msg)"

section \<open>Session state and its initialisation\<close>

text \<open>
  \<open>st.session_state\<close> is a dictionary that lives as long as the browser session. Each key
  the program uses is a field here; \<open>None\<close> says that the key is not in the dictionary,
  \<open>Some v\<close> that it holds \<open>v\<close> (so a key holding Python's \<open>None\<close> is \<open>Some None\<close>).
\<close>

datatype py_exception = AttributeError string | Raised string

datatype orchestrator = Orchestrator nat

datatype app = App

record thread_entry =
  thread_id :: string
  title :: string

record session_state =
  episodic_orchestrator :: "orchestrator option option"
  thread_files :: "(string \<times> string list) list option"
  uploaded_files :: "string list option"
  uploaded_file_path :: "string option option"
  uploaded_file_hash :: "string option option"
  uploaded_file_name :: "string option option"
  use_episodic_learning :: "bool option"
  processed_content_hashes :: "string set option"
  expander_states :: "(string \<times> bool) list option"
  thread_ids :: "thread_entry list option"
  current_thread_id :: "string option"
  messages :: "message list option"
  processed_message_ids :: "string set option"
  processed_tools_ids :: "string set option"
  waiting_for_approval :: "bool option"
  current_plan :: "string option option"
  approval_interrupted :: "bool option"

definition empty_session :: session_state where
  "empty_session =
     \<lparr>episodic_orchestrator = None, thread_files = None, uploaded_files = None,
      uploaded_file_path = None, uploaded_file_hash = None, uploaded_file_name = None,
      use_episodic_learning = None, processed_content_hashes = None, expander_states = None,
      thread_ids = None, current_thread_id = None, messages = None,
      processed_message_ids = None, processed_tools_ids = None,
      waiting_for_approval = None, current_plan = None, approval_interrupted = None\<rparr>"

text \<open>The dictionary \<open>create_new_conversation()\<close> returns.\<close>

record conversation =
  new_thread_id :: string
  new_messages :: "message list"
  new_processed_message_ids :: "string set"
  new_processed_tools_ids :: "string set"

text \<open>
  The functions imported from \<open>backend\<close> and \<open>core\<close> are not part of the two files at
  hand. They are parameters: a value of \<open>collaborators\<close> says what each of them does
  during one run of the script. A call that raises is \<open>Inl\<close>. \<open>load_conversation\<close> writes
  into the session state, so it maps the state before to the state after, together with
  the exception if it raised on the way. \<open>load_thread_ids\<close> is called a second time only
  after \<open>create_new_conversation\<close>, which may have changed the store, so that call has
  an outcome of its own.
\<close>

record collaborators =
  get_orchestrator :: "py_exception + orchestrator"
  load_thread_ids :: "py_exception + thread_entry list"
  create_app :: "py_exception + app"
  load_conversation :: "string \<Rightarrow> app option \<Rightarrow> session_state \<Rightarrow> py_exception option \<times> session_state"
  get_welcome_message :: message
  create_new_conversation :: "py_exception + conversation"
  load_thread_ids_after_create :: "py_exception + thread_entry list"

text \<open>Lines 36 to 42: the orchestrator, or \<open>None\<close> when it cannot be built.\<close>

definition init_episodic_orchestrator :: "collaborators \<Rightarrow> session_state \<Rightarrow> session_state" where
  "init_episodic_orchestrator c s =
     (if episodic_orchestrator s = None then
        (case get_orchestrator c of
           Inr orch \<Rightarrow> s\<lparr>episodic_orchestrator := Some (Some orch)\<rparr>
         | Inl e \<Rightarrow> s\<lparr>episodic_orchestrator := Some None\<rparr>)
      else s)"

text \<open>Lines 45 to 71: one default per key, written only when the key is missing.\<close>

definition init_thread_files :: "session_state \<Rightarrow> session_state" where
  "init_thread_files s = (if thread_files s = None then s\<lparr>thread_files := Some []\<rparr> else s)"

definition init_uploaded_files :: "session_state \<Rightarrow> session_state" where
  "init_uploaded_files s = (if uploaded_files s = None then s\<lparr>uploaded_files := Some []\<rparr> else s)"

definition init_uploaded_file_path :: "session_state \<Rightarrow> session_state" where
  "init_uploaded_file_path s =
     (if uploaded_file_path s = None then s\<lparr>uploaded_file_path := Some None\<rparr> else s)"

definition init_uploaded_file_hash :: "session_state \<Rightarrow> session_state" where
  "init_uploaded_file_hash s =
     (if uploaded_file_hash s = None then s\<lparr>uploaded_file_hash := Some None\<rparr> else s)"

definition init_uploaded_file_name :: "session_state \<Rightarrow> session_state" where
  "init_uploaded_file_name s =
     (if uploaded_file_name s = None then s\<lparr>uploaded_file_name := Some None\<rparr> else s)"

definition init_use_episodic_learning :: "session_state \<Rightarrow> session_state" where
  "init_use_episodic_learning s =
     (if use_episodic_learning s = None then s\<lparr>use_episodic_learning := Some True\<rparr> else s)"

definition init_processed_content_hashes :: "session_state \<Rightarrow> session_state" where
  "init_processed_content_hashes s =
     (if processed_content_hashes s = None then s\<lparr>processed_content_hashes := Some {}\<rparr> else s)"

definition init_expander_states :: "session_state \<Rightarrow> session_state" where
  "init_expander_states s =
     (if expander_states s = None
      then s\<lparr>expander_states :=
             Some [(''progress_expander'', True), (''show_progress_content'', False)]\<rparr>
      else s)"

definition init_defaults :: "session_state \<Rightarrow> session_state" where
  "init_defaults s =
     init_expander_states (init_processed_content_hashes (init_use_episodic_learning
       (init_uploaded_file_name (init_uploaded_file_hash (init_uploaded_file_path
         (init_uploaded_files (init_thread_files s)))))))"

text \<open>Lines 74 and 75: the roster; an exception of \<open>load_thread_ids\<close> is not caught.\<close>

definition init_thread_ids :: "collaborators \<Rightarrow> session_state \<Rightarrow> py_exception + session_state" where
  "init_thread_ids c s =
     (if thread_ids s = None then
        (case load_thread_ids c of
           Inl e \<Rightarrow> Inl e
         | Inr r \<Rightarrow> Inr (s\<lparr>thread_ids := Some r\<rparr>))
      else Inr s)"

text \<open>Lines 88 to 91, the \<open>except\<close> branch: the basic initialisation.\<close>

definition fallback_conversation :: "collaborators \<Rightarrow> thread_entry \<Rightarrow> session_state \<Rightarrow> session_state" where
  "fallback_conversation c recent_thread s =
     s\<lparr>current_thread_id := Some (thread_id recent_thread),
       messages := Some [get_welcome_message c],
       processed_message_ids := Some {},
       processed_tools_ids := Some {}\<rparr>"

text \<open>
  Lines 78 to 100. With a roster, the most recent conversation (the last entry) is loaded
  inside \<open>try\<close>; both \<open>create_app\<close> and \<open>load_conversation\<close> are covered by the \<open>except\<close>.
  Without one, a conversation is created and the roster is read again, outside any \<open>try\<close>.
  Reading \<open>st.session_state.thread_ids\<close> while the key is missing raises AttributeError.
\<close>

definition init_current_conversation :: "collaborators \<Rightarrow> session_state \<Rightarrow> py_exception + session_state" where
  "init_current_conversation c s =
     (if current_thread_id s = None then
        (case thread_ids s of
           None \<Rightarrow> Inl (AttributeError ''thread_ids'')
         | Some r \<Rightarrow>
            if r \<noteq> [] then
              (let recent_thread = last r in
               case create_app c of
                 Inl e \<Rightarrow> Inr (fallback_conversation c recent_thread s)
               | Inr a \<Rightarrow>
                  (case load_conversation c (thread_id recent_thread) (Some a) s of
                     (None, s') \<Rightarrow> Inr s'
                   | (Some e, s') \<Rightarrow> Inr (fallback_conversation c recent_thread s')))
            else
              (case create_new_conversation c of
                 Inl e \<Rightarrow> Inl e
               | Inr new_conv \<Rightarrow>
                  (case load_thread_ids_after_create c of
                     Inl e \<Rightarrow> Inl e
                   | Inr r' \<Rightarrow>
                      Inr (s\<lparr>current_thread_id := Some (new_thread_id new_conv),
                             messages := Some (new_messages new_conv),
                             processed_message_ids := Some (new_processed_message_ids new_conv),
                             processed_tools_ids := Some (new_processed_tools_ids new_conv),
                             thread_ids := Some r'\<rparr>))))
      else Inr s)"

text \<open>Lines 103 to 108.\<close>

definition init_waiting_state :: "session_state \<Rightarrow> session_state" where
  "init_waiting_state s =
     (let s1 = (if waiting_for_approval s = None then s\<lparr>waiting_for_approval := Some False\<rparr> else s);
          s2 = (if current_plan s1 = None then s1\<lparr>current_plan := Some None\<rparr> else s1)
      in if approval_interrupted s2 = None then s2\<lparr>approval_interrupted := Some False\<rparr> else s2)"

text \<open>Lines 36 to 75, everything before the current conversation is looked at.\<close>

definition before_bootstrap :: "collaborators \<Rightarrow> session_state \<Rightarrow> py_exception + session_state" where
  "before_bootstrap c s = init_thread_ids c (init_defaults (init_episodic_orchestrator c s))"

definition initialize_demo_session :: "collaborators \<Rightarrow> session_state \<Rightarrow> py_exception + session_state" where
  "initialize_demo_session c s =
     (case before_bootstrap c s of
        Inl e \<Rightarrow> Inl e
      | Inr s1 \<Rightarrow>
         (case init_current_conversation c s1 of
            Inl e \<Rightarrow> Inl e
          | Inr s2 \<Rightarrow> Inr (init_waiting_state s2)))"

section \<open>The sidebar\<close>

text \<open>
  One run of the script sees at most one button pressed. The buttons are looked at in the
  order in which the script creates them; \<open>st.rerun()\<close> ends the run at once, which is the
  flag in the result. An exception that nothing catches ends the run as well; the result
  is then the exception alone (\<open>Inl\<close>).
\<close>

datatype ui_click = NoClick | ExtractLearning | NewTask | SelectThread string | DeleteThread string

text \<open>
  The loop of \<open>_display_conversation_list\<close> over the reversed roster. The conversation
  button of the current thread is disabled and cannot fire. The delete button only calls
  \<open>st.rerun()\<close>.
\<close>

fun conversation_buttons ::
  "collaborators \<Rightarrow> app option \<Rightarrow> ui_click \<Rightarrow> thread_entry list \<Rightarrow> session_state
     \<Rightarrow> py_exception + session_state \<times> bool" where
  "conversation_buttons c a click [] s = Inr (s, False)"
| "conversation_buttons c a click (thread_data # rest) s =
     (case current_thread_id s of
        None \<Rightarrow> Inl (AttributeError ''current_thread_id'')
      | Some cur \<Rightarrow>
         (let is_current = (thread_id thread_data = cur) in
          if click = SelectThread (thread_id thread_data) \<and> \<not> is_current then
            (case load_conversation c (thread_id thread_data) a s of
               (None, s') \<Rightarrow> Inr (s', True)
             | (Some e, s') \<Rightarrow> Inl e)
          else if click = DeleteThread (thread_id thread_data) then Inr (s, True)
          else conversation_buttons c a click rest s))"

definition display_conversation_list ::
  "collaborators \<Rightarrow> app option \<Rightarrow> ui_click \<Rightarrow> session_state \<Rightarrow> py_exception + session_state \<times> bool" where
  "display_conversation_list c a click s =
     (case thread_ids s of
        None \<Rightarrow> Inl (AttributeError ''thread_ids'')
      | Some r \<Rightarrow> if r \<noteq> [] then conversation_buttons c a click (rev r) s else Inr (s, False))"

text \<open>
  \<open>display_sidebar\<close>: the learning section (its button only reruns, its statistics only
  read), the New Task button (only \<open>st.rerun()\<close>), the conversation list.
\<close>

definition display_sidebar ::
  "collaborators \<Rightarrow> app option \<Rightarrow> ui_click \<Rightarrow> session_state \<Rightarrow> py_exception + session_state \<times> bool" where
  "display_sidebar c a click s =
     (if click = ExtractLearning then Inr (s, True)
      else if click = NewTask then Inr (s, True)
      else display_conversation_list c a click s)"

text \<open>
  \<open>main\<close>: initialise, build the app for the sidebar (\<open>None\<close> when that fails), show the
  sidebar, and unless the run was ended by a rerun, show the messages.
\<close>

datatype run_result = Rerun session_state | Rendered session_state "render list list"

fun state_after :: "run_result \<Rightarrow> session_state" where
  "state_after (Rerun s) = s"
| "state_after (Rendered s out) = s"

definition main :: "collaborators \<Rightarrow> ui_click \<Rightarrow> session_state \<Rightarrow> py_exception + run_result" where
  "main c click s =
     (case initialize_demo_session c s of
        Inl e \<Rightarrow> Inl e
      | Inr s1 \<Rightarrow>
         (let a = (case create_app c of Inr a \<Rightarrow> Some a | Inl e \<Rightarrow> None) in
          case display_sidebar c a click s1 of
            Inl e \<Rightarrow> Inl e
          | Inr (s2, rerun) \<Rightarrow>
             if rerun then Inr (Rerun s2)
             else (case messages s2 of
                     None \<Rightarrow> Inl (AttributeError ''messages'')
                   | Some ms \<Rightarrow> Inr (Rendered s2 (display_chat_messages ms)))))"

section \<open>Vocabulary of the session properties\<close>

text \<open>The fourteen keys whose absence \<open>initialize_demo_session\<close> tests.\<close>

definition session_initialized :: "session_state \<Rightarrow> bool" where
  "session_initialized s =
     (episodic_orchestrator s \<noteq> None \<and> thread_files s \<noteq> None \<and> uploaded_files s \<noteq> None
      \<and> uploaded_file_path s \<noteq> None \<and> uploaded_file_hash s \<noteq> None
      \<and> uploaded_file_name s \<noteq> None \<and> use_episodic_learning s \<noteq> None
      \<and> processed_content_hashes s \<noteq> None \<and> expander_states s \<noteq> None
      \<and> thread_ids s \<noteq> None \<and> current_thread_id s \<noteq> None
      \<and> waiting_for_approval s \<noteq> None \<and> current_plan s \<noteq> None
      \<and> approval_interrupted s \<noteq> None)"

text \<open>
  Referential integrity: the roster is loaded, a current thread is assigned, and when the
  roster is not empty the current thread is one of its entries.
\<close>

definition roster_integrity :: "session_state \<Rightarrow> bool" where
  "roster_integrity s =
     (case thread_ids s of
        None \<Rightarrow> False
      | Some r \<Rightarrow>
         (case current_thread_id s of
            None \<Rightarrow> False
          | Some cur \<Rightarrow> r = [] \<or> cur \<in> set (map thread_id r)))"

text \<open>
  Modelled from the spec: the contract of the persistence collaborator, whose code
  (\<open>load_conversation\<close>, \<open>create_new_conversation\<close>, \<open>load_thread_ids\<close>) is not among the
  files. Sections 4.2 and 6 say that loading a thread sets it current and that the roster
  belongs to persistence alone, so \<open>load_conversation\<close> never changes the roster held in
  the session and, when it returns, has set \<open>current_thread_id\<close> to the thread asked for;
  and that the roster read after a creation includes the new thread (here: unless that
  roster is empty).
\<close>

definition collaborators_ok :: "collaborators \<Rightarrow> bool" where
  "collaborators_ok c =
     ((\<forall>tid a s. thread_ids (snd (load_conversation c tid a s)) = thread_ids s)
      \<and> (\<forall>tid a s. fst (load_conversation c tid a s) = None
            \<longrightarrow> current_thread_id (snd (load_conversation c tid a s)) = Some tid)
      \<and> (case create_new_conversation c of
            Inl e \<Rightarrow> True
          | Inr new_conv \<Rightarrow>
             (case load_thread_ids_after_create c of
                Inl e \<Rightarrow> True
              | Inr r \<Rightarrow> r = [] \<or> new_thread_id new_conv \<in> set (map thread_id r))))"

text \<open>
  Modelled from the spec: \<open>load_conversation\<close> over a store of message histories
  (section 4.2, Select): the full history of the thread goes into \<open>messages\<close>, the thread
  becomes current, the two processed-id sets are reset. A thread the store does not hold
  raises, and nothing is written.
\<close>

definition spec_load_conversation ::
  "(string \<times> message list) list \<Rightarrow> string \<Rightarrow> app option \<Rightarrow> session_state
     \<Rightarrow> py_exception option \<times> session_state" where
  "spec_load_conversation store tid a s =
     (case map_of store tid of
        None \<Rightarrow> (Some (Raised ''thread not found''), s)
      | Some history \<Rightarrow>
         (None, s\<lparr>current_thread_id := Some tid, messages := Some history,
                  processed_message_ids := Some {}, processed_tools_ids := Some {}\<rparr>))"

text \<open>
  Modelled from the spec: \<open>create_new_conversation\<close> (section 6, createThread): a new
  thread seeded with the welcome message and empty processed-id sets.
\<close>

definition spec_create_new_conversation :: "string \<Rightarrow> message \<Rightarrow> conversation" where
  "spec_create_new_conversation tid welcome =
     \<lparr>new_thread_id = tid, new_messages = [welcome],
      new_processed_message_ids = {}, new_processed_tools_ids = {}\<rparr>"

text \<open>A small store with two threads, used for the concrete instances below.\<close>

definition demo_welcome :: message where
  "demo_welcome = \<lparr>role = ''assistant'', content = ''Welcome''\<rparr>"

definition demo_roster :: "thread_entry list" where
  "demo_roster = [\<lparr>thread_id = ''t1'', title = ''First task''\<rparr>,
                  \<lparr>thread_id = ''t2'', title = ''Second task''\<rparr>]"

definition demo_store :: "(string \<times> message list) list" where
  "demo_store =
     [(''t1'', [demo_welcome, \<lparr>role = ''user'', content = ''hello''\<rparr>]),
      (''t2'', [demo_welcome])]"

definition demo_collaborators :: collaborators where
  "demo_collaborators =
     \<lparr>get_orchestrator = Inr (Orchestrator 0),
      load_thread_ids = Inr demo_roster,
      create_app = Inr App,
      load_conversation = spec_load_conversation demo_store,
      get_welcome_message = demo_welcome,
      create_new_conversation = Inr (spec_create_new_conversation ''t3'' demo_welcome),
      load_thread_ids_after_create =
        Inr (demo_roster @ [\<lparr>thread_id = ''t3'', title = ''New Conversation''\<rparr>])\<rparr>"

text \<open>The session after a first run over that store: every key set, \<open>t2\<close> current.\<close>

definition demo_session :: session_state where
  "demo_session =
     \<lparr>episodic_orchestrator = Some (Some (Orchestrator 0)), thread_files = Some [],
      uploaded_files = Some [], uploaded_file_path = Some None,
      uploaded_file_hash = Some None, uploaded_file_name = Some None,
      use_episodic_learning = Some True, processed_content_hashes = Some {},
      expander_states = Some [(''progress_expander'', True), (''show_progress_content'', False)],
      thread_ids = Some demo_roster, current_thread_id = Some ''t2'',
      messages = Some [demo_welcome],
      processed_message_ids = Some {}, processed_tools_ids = Some {},
      waiting_for_approval = Some False, current_plan = Some None,
      approval_interrupted = Some False\<rparr>"

text \<open>A \<open>load_conversation\<close> that always raises, and the demo session with the approval flag set.\<close>

definition failing_load_conversation ::
  "string \<Rightarrow> app option \<Rightarrow> session_state \<Rightarrow> py_exception option \<times> session_state" where
  "failing_load_conversation tid a s = (Some (Raised ''database is locked''), s)"

definition demo_waiting :: session_state where
  "demo_waiting = demo_session\<lparr>waiting_for_approval := Some True\<rparr>"

section \<open>Properties of the segmenter\<close>

subsection \<open>Lines and buffers\<close>

lemma split_lines_not_Nil: "split_lines s \<noteq> []"
  by (induction s) (auto split: list.splits)

lemma split_lines_no_nl: "l \<in> set (split_lines s) \<Longrightarrow> nl \<notin> set l"
proof (induction s arbitrary: l)
  case Nil
  then show ?case by simp
next
  case (Cons c cs)
  show ?case
  proof (cases "c = nl")
    case True
    with Cons show ?thesis by auto
  next
    case False
    obtain x xs where sp: "split_lines cs = x # xs"
      using split_lines_not_Nil [of cs] by (cases "split_lines cs") auto
    with False Cons show ?thesis by auto
  qed
qed

lemma split_lines_line: "nl \<notin> set l \<Longrightarrow> split_lines (l @ nl # r) = l # split_lines r"
  by (induction l) auto

lemma split_lines_concat:
  "\<forall>l \<in> set F. nl \<notin> set l \<Longrightarrow> split_lines (concat (map with_nl F)) = F @ [[]]"
  by (induction F) (auto simp: with_nl_def split_lines_line)

lemma buffer_lines_concat:
  "\<forall>l \<in> set F. nl \<notin> set l \<Longrightarrow> buffer_lines (concat (map with_nl F)) = F"
  by (simp add: buffer_lines_def split_lines_concat)

lemma join_split_lines: "concat (map with_nl (split_lines s)) = s @ [nl]"
proof (induction s)
  case Nil
  show ?case by (simp add: with_nl_def)
next
  case (Cons c cs)
  obtain x xs where sp: "split_lines cs = x # xs"
    using split_lines_not_Nil [of cs] by (cases "split_lines cs") auto
  with Cons show ?case by (auto simp: with_nl_def)
qed

lemma strip_append_space: "is_space x \<Longrightarrow> strip (s @ [x]) = strip s"
proof (cases "\<forall>c \<in> set s. is_space c")
  case True
  assume x: "is_space x"
  from True have a: "dropWhile is_space s = []" by simp
  have "\<forall>c \<in> set (s @ [x]). is_space c" using True x by simp
  then have b: "dropWhile is_space (s @ [x]) = []" by (simp only: dropWhile_eq_Nil_conv)
  show ?thesis unfolding strip_def a b by simp
next
  case False
  assume x: "is_space x"
  from False obtain c where c: "c \<in> set s" "\<not> is_space c" by blast
  then have a: "dropWhile is_space (s @ [x]) = dropWhile is_space s @ [x]"
    by (rule dropWhile_append1)
  show ?thesis unfolding strip_def a using x by simp
qed

lemma is_space_nl: "is_space nl"
  by (simp add: is_space_def nl_def)

lemma process_line_cases:
  "(process_line pm fm st line =
      st\<lparr>current_section := Progress, progress_content := progress_content st @ with_nl line\<rparr>
    \<and> next_section pm fm (current_section st) line = Progress)
   \<or> (process_line pm fm st line =
      st\<lparr>current_section := Final, final_content := final_content st @ with_nl line\<rparr>
    \<and> next_section pm fm (current_section st) line = Final)"
  by (cases "next_section pm fm (current_section st) line")
     (simp_all add: process_line_def add_line_def with_nl_def)

lemma scan_partition:
  "\<exists>F P. final_content (foldl (process_line pm fm) st ls) = final_content st @ concat (map with_nl F)
       \<and> progress_content (foldl (process_line pm fm) st ls) = progress_content st @ concat (map with_nl P)
       \<and> mset F + mset P = mset ls \<and> subseq F ls \<and> subseq P ls"
proof (induction ls arbitrary: st)
  case Nil
  show ?case by simp
next
  case (Cons l ls)
  let ?st' = "process_line pm fm st l"
  from Cons.IH [of ?st'] obtain F P where
    f: "final_content (foldl (process_line pm fm) ?st' ls) = final_content ?st' @ concat (map with_nl F)"
    and p: "progress_content (foldl (process_line pm fm) ?st' ls) = progress_content ?st' @ concat (map with_nl P)"
    and m: "mset F + mset P = mset ls" and sf: "subseq F ls" and sp: "subseq P ls"
    by blast
  from process_line_cases [of pm fm st l] show ?case
  proof
    assume a: "?st' = st\<lparr>current_section := Progress, progress_content := progress_content st @ with_nl l\<rparr>
       \<and> next_section pm fm (current_section st) l = Progress"
    have "final_content (foldl (process_line pm fm) st (l # ls)) = final_content st @ concat (map with_nl F)"
      using f a by simp
    moreover have "progress_content (foldl (process_line pm fm) st (l # ls)) = progress_content st @ concat (map with_nl (l # P))"
      using p a by simp
    moreover have "mset F + mset (l # P) = mset (l # ls)" using m by simp
    moreover have "subseq F (l # ls)" using sf by (rule list_emb_Cons)
    moreover have "subseq (l # P) (l # ls)" using sp by simp
    ultimately show ?thesis by blast
  next
    assume a: "?st' = st\<lparr>current_section := Final, final_content := final_content st @ with_nl l\<rparr>
       \<and> next_section pm fm (current_section st) l = Final"
    have "final_content (foldl (process_line pm fm) st (l # ls)) = final_content st @ concat (map with_nl (l # F))"
      using f a by simp
    moreover have "progress_content (foldl (process_line pm fm) st (l # ls)) = progress_content st @ concat (map with_nl P)"
      using p a by simp
    moreover have "mset (l # F) + mset P = mset (l # ls)" using m by simp
    moreover have "subseq P (l # ls)" using sp by (rule list_emb_Cons)
    moreover have "subseq (l # F) (l # ls)" using sf by simp
    ultimately show ?thesis by blast
  qed
qed

lemma no_header_step:
  "\<not> is_header_line pm fm line \<Longrightarrow> next_section pm fm cur line = cur"
  by (auto simp: is_header_line_def next_section_def Let_def)

lemma no_header_scan:
  "\<forall>l \<in> set ls. \<not> is_header_line pm fm l \<Longrightarrow>
   foldl (process_line pm fm) st ls =
     (if current_section st = Progress
      then st\<lparr>progress_content := progress_content st @ concat (map with_nl ls)\<rparr>
      else st\<lparr>final_content := final_content st @ concat (map with_nl ls)\<rparr>)"
proof (induction ls arbitrary: st)
  case Nil
  show ?case by simp
next
  case (Cons l ls)
  have nh: "next_section pm fm (current_section st) l = current_section st"
    using Cons.prems by (simp add: no_header_step)
  have rest: "\<forall>l \<in> set ls. \<not> is_header_line pm fm l"
    using Cons.prems by simp
  show ?case
  proof (cases "current_section st")
    case Progress
    have step: "process_line pm fm st l = st\<lparr>progress_content := progress_content st @ with_nl l\<rparr>"
      using nh Progress by (cases st) (simp add: process_line_def add_line_def with_nl_def)
    show ?thesis
      using Cons.IH [OF rest, of "process_line pm fm st l"] Progress
      by (simp add: step)
  next
    case Final
    have step: "process_line pm fm st l = st\<lparr>final_content := final_content st @ with_nl l\<rparr>"
      using nh Final by (cases st) (simp add: process_line_def add_line_def with_nl_def)
    show ?thesis
      using Cons.IH [OF rest, of "process_line pm fm st l"] Final
      by (simp add: step)
  qed
qed

subsection \<open>Claims about the segmenter\<close>

text \<open>
  C1. The marker-routing example: the content
  \<open>**SUPERVISOR**\nthinking...\n**REPORT_AGENT**\nDone.\<close> gives exactly two segments,
  the final one first with the text \<open>**REPORT_AGENT**\nDone.\<close> and the progress one
  second with the text \<open>**SUPERVISOR**\nthinking...\<close>. This holds with the progress
  vocabulary \<open>{SUPERVISOR}\<close> and the final vocabulary \<open>{REPORT_AGENT}\<close>, with the
  vocabularies of the program, and for the rendering of the assistant message itself.
\<close>

theorem marker_routing_example:
  "segment_with [''SUPERVISOR''] [''REPORT_AGENT'']
     ''**SUPERVISOR**\<newline>thinking...\<newline>**REPORT_AGENT**\<newline>Done.''
   = [(Final, ''**REPORT_AGENT**\<newline>Done.''), (Progress, ''**SUPERVISOR**\<newline>thinking...'')]
   \<and> segment ''**SUPERVISOR**\<newline>thinking...\<newline>**REPORT_AGENT**\<newline>Done.''
   = [(Final, ''**REPORT_AGENT**\<newline>Done.''), (Progress, ''**SUPERVISOR**\<newline>thinking...'')]
   \<and> display_message \<lparr>role = ''assistant'',
        content = ''**SUPERVISOR**\<newline>thinking...\<newline>**REPORT_AGENT**\<newline>Done.''\<rparr>
   = [Markdown ''**REPORT_AGENT**\<newline>Done.'', Expander ''**SUPERVISOR**\<newline>thinking...'']"
  by code_simp

text \<open>
  C2. Segment completeness: every line of the content is appended, with its newline, to
  exactly one of the two buffers. The lines \<open>F\<close> held by the final buffer and the lines
  \<open>P\<close> held by the progress buffer together are the lines of the content, each as often
  as it occurs there, and each of \<open>F\<close> and \<open>P\<close> is a subsequence of the content's
  lines, so the original order is kept within each kind. The same then holds of the
  non-blank lines alone.
\<close>

theorem segment_completeness:
  "let ls = split_lines msg;
       st = scan_lines pm fm ls;
       F = buffer_lines (final_content st);
       P = buffer_lines (progress_content st)
   in final_content st = concat (map with_nl F)
    \<and> progress_content st = concat (map with_nl P)
    \<and> mset F + mset P = mset ls
    \<and> subseq F ls \<and> subseq P ls
    \<and> mset (filter non_blank F) + mset (filter non_blank P) = mset (filter non_blank ls)"
proof -
  let ?ls = "split_lines msg"
  let ?st = "scan_lines pm fm ?ls"
  have "\<exists>F P. final_content ?st = [] @ concat (map with_nl F)
       \<and> progress_content ?st = [] @ concat (map with_nl P)
       \<and> mset F + mset P = mset ?ls \<and> subseq F ?ls \<and> subseq P ?ls"
    using scan_partition [of pm fm seg_init ?ls]
    unfolding scan_lines_def seg_init_def by simp
  then obtain F P where
    f: "final_content ?st = concat (map with_nl F)"
    and p: "progress_content ?st = concat (map with_nl P)"
    and m: "mset F + mset P = mset ?ls" and sf: "subseq F ?ls" and sp: "subseq P ?ls"
    unfolding append_Nil by (elim exE conjE)
  have un: "set F \<union> set P = set ?ls"
    using arg_cong [OF m, of set_mset] by simp
  have nf: "\<forall>l \<in> set F. nl \<notin> set l"
    using un split_lines_no_nl [of _ msg] by blast
  have np: "\<forall>l \<in> set P. nl \<notin> set l"
    using un split_lines_no_nl [of _ msg] by blast
  have bf: "buffer_lines (final_content ?st) = F"
    unfolding f using nf by (rule buffer_lines_concat)
  have bp: "buffer_lines (progress_content ?st) = P"
    unfolding p using np by (rule buffer_lines_concat)
  have nb: "mset (filter non_blank F) + mset (filter non_blank P) = mset (filter non_blank ?ls)"
    using arg_cong [OF m, of "filter_mset non_blank"] by simp
  show ?thesis
    unfolding Let_def bf bp
    using f p m sf sp nb by (intro conjI)
qed

text \<open>
  C3 (as amended). For content without header lines the section stays \<open>Final\<close> after every
  prefix of the lines, the progress buffer stays empty and the final buffer is the content
  followed by a newline. The rendering is one final segment, the stripped content, when
  the stripped content is not empty, and no segment at all when it is empty; in particular
  empty content gives no segment. An assistant message with empty content does not even
  enter the segmenter: its content is handed to \<open>st.markdown\<close> as it is.
\<close>

theorem no_header_lines_single_final:
  assumes "no_header_lines pm fm msg"
  shows "scan_lines pm fm (split_lines msg) =
           \<lparr>current_section = Final, progress_content = [], final_content = msg @ [nl]\<rparr>
       \<and> (\<forall>n. current_section (scan_lines pm fm (take n (split_lines msg))) = Final)
       \<and> segment_with pm fm msg = (if strip msg = [] then [] else [(Final, strip msg)])
       \<and> segment_with pm fm [] = []
       \<and> display_message \<lparr>role = ''assistant'', content = []\<rparr> = [Markdown []]"
proof -
  have nh: "\<forall>l \<in> set (split_lines msg). \<not> is_header_line pm fm l"
    using assms by (simp add: no_header_lines_def list_all_iff)
  have a: "scan_lines pm fm (split_lines msg) =
           \<lparr>current_section = Final, progress_content = [], final_content = msg @ [nl]\<rparr>"
    using no_header_scan [OF nh, of seg_init]
    by (simp add: scan_lines_def seg_init_def join_split_lines)
  have b: "current_section (scan_lines pm fm (take n (split_lines msg))) = Final" for n
  proof -
    have "\<forall>l \<in> set (take n (split_lines msg)). \<not> is_header_line pm fm l"
      using nh by (meson in_set_takeD)
    then show ?thesis
      using no_header_scan [of "take n (split_lines msg)" pm fm seg_init]
      by (simp add: scan_lines_def seg_init_def)
  qed
  have s0: "strip [] = []" by (simp add: strip_def)
  have s1: "strip (msg @ [nl]) = strip msg" by (simp add: strip_append_space is_space_nl)
  have s2: "strip [nl] = []" using strip_append_space [of nl "[]"] by (simp add: is_space_nl s0)
  have c: "segment_with pm fm msg = (if strip msg = [] then [] else [(Final, strip msg)])"
    by (simp add: segment_with_def a emit_def s0 s1)
  have d: "segment_with pm fm [] = []"
    by (simp add: segment_with_def scan_lines_def seg_init_def process_line_def add_line_def
        next_section_def bold_delimited_def startswith_def emit_def s0 s2)
  have e: "display_message \<lparr>role = ''assistant'', content = []\<rparr> = [Markdown []]"
    by (simp add: display_message_def)
  show ?thesis
    using a c d e by (intro conjI allI b)
qed

text \<open>The default-classification example, \<open>plain text\nline two\<close> with empty vocabularies.\<close>

theorem no_header_lines_single_final_witness:
  "no_header_lines [] [] ''plain text\<newline>line two''
   \<and> segment_with [] [] ''plain text\<newline>line two'' = [(Final, ''plain text\<newline>line two'')]"
proof -
  have h: "no_header_lines [] [] ''plain text\<newline>line two''"
    by code_simp
  have t: "strip ''plain text\<newline>line two'' = ''plain text\<newline>line two''"
    by code_simp
  show ?thesis
    using h no_header_lines_single_final [OF h] by (simp add: t)
qed

text \<open>
  The claim as written fails for content that is not empty but blank: a single space has
  no header line, and nothing is rendered for it, not one final segment.
\<close>

theorem blank_content_counterexample:
  "no_header_lines progress_agents final_agents '' ''
   \<and> '' '' \<noteq> []
   \<and> segment '' '' = []"
  by code_simp

text \<open>
  C4 (as amended). Header detection reads the line as split, not its trimmed text. A line
  that itself starts and ends with \<open>**\<close> and whose upper-case form contains a progress
  agent sets the section to \<open>Progress\<close>; one that contains no progress agent but a final
  agent sets it to \<open>Final\<close>; a line that does not itself start and end with \<open>**\<close> leaves
  the section as it was, whatever its trimmed text looks like.
\<close>

theorem header_detection_on_raw_line:
  "(bold_delimited line \<and> any_agent_in pm (upper line)
      \<longrightarrow> current_section (process_line pm fm st line) = Progress)
   \<and> (bold_delimited line \<and> \<not> any_agent_in pm (upper line) \<and> any_agent_in fm (upper line)
      \<longrightarrow> current_section (process_line pm fm st line) = Final)
   \<and> (\<not> bold_delimited line
      \<longrightarrow> current_section (process_line pm fm st line) = current_section st)"
  by (simp add: process_line_def add_line_def next_section_def Let_def)

theorem header_detection_on_raw_line_witness:
  "(bold_delimited ''**Supervisor**'' \<and> any_agent_in progress_agents (upper ''**Supervisor**'')
    \<and> current_section (process_line progress_agents final_agents seg_init ''**Supervisor**'') = Progress)
   \<and> (bold_delimited ''**report_agent**''
    \<and> \<not> any_agent_in progress_agents (upper ''**report_agent**'')
    \<and> any_agent_in final_agents (upper ''**report_agent**'')
    \<and> current_section (process_line progress_agents final_agents
          \<lparr>current_section = Progress, progress_content = [], final_content = []\<rparr>
          ''**report_agent**'') = Final)
   \<and> (\<not> bold_delimited '' **SUPERVISOR**''
    \<and> current_section (process_line progress_agents final_agents seg_init '' **SUPERVISOR**'')
        = current_section seg_init)"
proof -
  have a: "bold_delimited ''**Supervisor**'' \<and> any_agent_in progress_agents (upper ''**Supervisor**'')"
    by code_simp
  have b: "bold_delimited ''**report_agent**''
    \<and> \<not> any_agent_in progress_agents (upper ''**report_agent**'')
    \<and> any_agent_in final_agents (upper ''**report_agent**'')"
    by code_simp
  have c: "\<not> bold_delimited '' **SUPERVISOR**''"
    by code_simp
  show ?thesis
    using a b c
      header_detection_on_raw_line [of "''**Supervisor**''" progress_agents final_agents seg_init]
      header_detection_on_raw_line [of "''**report_agent**''" progress_agents final_agents
        "\<lparr>current_section = Progress, progress_content = [], final_content = []\<rparr>"]
      header_detection_on_raw_line [of "'' **SUPERVISOR**''" progress_agents final_agents seg_init]
    by simp
qed

text \<open>
  The claim as written fails twice. The line \<open>  **SUPERVISOR**  \<close> has a trimmed text that
  starts and ends with \<open>**\<close> and an upper-case form that contains a progress agent, and the
  section stays \<open>Final\<close>. The line \<open>**SUPERVISOR and REPORT_AGENT**\<close> contains a final
  agent, and the section becomes \<open>Progress\<close>, since the progress vocabulary is tried first.
\<close>

theorem trimmed_header_counterexample:
  "bold_delimited (strip ''  **SUPERVISOR**  '')
   \<and> any_agent_in progress_agents (upper ''  **SUPERVISOR**  '')
   \<and> current_section (process_line progress_agents final_agents seg_init ''  **SUPERVISOR**  '') = Final
   \<and> bold_delimited (strip ''**SUPERVISOR and REPORT_AGENT**'')
   \<and> any_agent_in final_agents (upper ''**SUPERVISOR and REPORT_AGENT**'')
   \<and> current_section (process_line progress_agents final_agents seg_init
        ''**SUPERVISOR and REPORT_AGENT**'') = Progress"
  by code_simp

text \<open>
  C5. A line that starts and ends with \<open>**\<close> and whose upper-case form contains no agent
  of either vocabulary leaves the section unchanged, so that line and the lines after it,
  as long as none of them is a header line, are appended to the buffer of the section that
  was in effect before; the other buffer is not touched.
\<close>

theorem unmatched_header_keeps_section:
  assumes "bold_delimited line"
    and "\<not> any_agent_in pm (upper line)"
    and "\<not> any_agent_in fm (upper line)"
    and "list_all (\<lambda>l. \<not> is_header_line pm fm l) rest"
  shows "current_section (process_line pm fm st line) = current_section st
       \<and> foldl (process_line pm fm) st (line # rest) =
          (if current_section st = Progress
           then st\<lparr>progress_content := progress_content st @ concat (map with_nl (line # rest))\<rparr>
           else st\<lparr>final_content := final_content st @ concat (map with_nl (line # rest))\<rparr>)"
proof -
  have nh: "\<not> is_header_line pm fm line"
    using assms(2,3) by (simp add: is_header_line_def)
  then have a: "current_section (process_line pm fm st line) = current_section st"
    by (simp add: process_line_def add_line_def no_header_step)
  have "\<forall>l \<in> set (line # rest). \<not> is_header_line pm fm l"
    using nh assms(4) by (simp add: list_all_iff)
  then have b: "foldl (process_line pm fm) st (line # rest) =
          (if current_section st = Progress
           then st\<lparr>progress_content := progress_content st @ concat (map with_nl (line # rest))\<rparr>
           else st\<lparr>final_content := final_content st @ concat (map with_nl (line # rest))\<rparr>)"
    by (rule no_header_scan)
  from a b show ?thesis by (rule conjI)
qed

theorem unmatched_header_keeps_section_witness:
  "bold_delimited ''**TOOL OUTPUT**''
   \<and> \<not> any_agent_in progress_agents (upper ''**TOOL OUTPUT**'')
   \<and> \<not> any_agent_in final_agents (upper ''**TOOL OUTPUT**'')
   \<and> list_all (\<lambda>l. \<not> is_header_line progress_agents final_agents l) [''rows: 3'']
   \<and> foldl (process_line progress_agents final_agents)
        \<lparr>current_section = Progress, progress_content = ''**SUPERVISOR**\<newline>'',
           final_content = []\<rparr>
        [''**TOOL OUTPUT**'', ''rows: 3'']
      = \<lparr>current_section = Progress,
           progress_content = ''**SUPERVISOR**\<newline>**TOOL OUTPUT**\<newline>rows: 3\<newline>'',
           final_content = []\<rparr>"
proof -
  have h1: "bold_delimited ''**TOOL OUTPUT**''" by code_simp
  have h2: "\<not> any_agent_in progress_agents (upper ''**TOOL OUTPUT**'')" by code_simp
  have h3: "\<not> any_agent_in final_agents (upper ''**TOOL OUTPUT**'')" by code_simp
  have h4: "list_all (\<lambda>l. \<not> is_header_line progress_agents final_agents l) [''rows: 3'']"
    by code_simp
  show ?thesis
    using h1 h2 h3 h4
      unmatched_header_keeps_section [OF h1 h2 h3 h4,
        of "\<lparr>current_section = Progress, progress_content = ''**SUPERVISOR**\<newline>'',
             final_content = []\<rparr>"]
    by (simp add: with_nl_def nl_def)
qed

section \<open>Properties of the session controller\<close>

subsection \<open>The steps of the initialisation\<close>

lemma init_episodic_orchestrator_set:
  "episodic_orchestrator s \<noteq> None \<Longrightarrow> init_episodic_orchestrator c s = s"
  by (auto simp: init_episodic_orchestrator_def)

lemma init_defaults_set:
  assumes "thread_files s \<noteq> None" "uploaded_files s \<noteq> None" "uploaded_file_path s \<noteq> None"
    "uploaded_file_hash s \<noteq> None" "uploaded_file_name s \<noteq> None" "use_episodic_learning s \<noteq> None"
    "processed_content_hashes s \<noteq> None" "expander_states s \<noteq> None"
  shows "init_defaults s = s"
proof -
  have 1: "init_thread_files s = s" using assms(1) by (auto simp: init_thread_files_def)
  have 2: "init_uploaded_files s = s" using assms(2) by (auto simp: init_uploaded_files_def)
  have 3: "init_uploaded_file_path s = s" using assms(3) by (auto simp: init_uploaded_file_path_def)
  have 4: "init_uploaded_file_hash s = s" using assms(4) by (auto simp: init_uploaded_file_hash_def)
  have 5: "init_uploaded_file_name s = s" using assms(5) by (auto simp: init_uploaded_file_name_def)
  have 6: "init_use_episodic_learning s = s" using assms(6) by (auto simp: init_use_episodic_learning_def)
  have 7: "init_processed_content_hashes s = s" using assms(7) by (auto simp: init_processed_content_hashes_def)
  have 8: "init_expander_states s = s" using assms(8) by (auto simp: init_expander_states_def)
  show ?thesis unfolding init_defaults_def 1 2 3 4 5 6 7 8 ..
qed

lemma init_thread_ids_set: "thread_ids s \<noteq> None \<Longrightarrow> init_thread_ids c s = Inr s"
  by (auto simp: init_thread_ids_def)

lemma init_current_conversation_set:
  "current_thread_id s \<noteq> None \<Longrightarrow> init_current_conversation c s = Inr s"
  by (cases "current_thread_id s") (simp_all add: init_current_conversation_def)

lemma init_waiting_state_set:
  "waiting_for_approval s \<noteq> None \<Longrightarrow> current_plan s \<noteq> None \<Longrightarrow> approval_interrupted s \<noteq> None
   \<Longrightarrow> init_waiting_state s = s"
  by (auto simp: init_waiting_state_def)

lemma init_noop: 
  assumes "session_initialized s" shows "initialize_demo_session c s = Inr s"
proof -
  have a: "init_episodic_orchestrator c s = s"
    using assms by (simp add: session_initialized_def init_episodic_orchestrator_set)
  have b: "init_defaults s = s"
    using assms by (intro init_defaults_set) (simp_all add: session_initialized_def)
  have d: "init_thread_ids c s = Inr s"
    using assms by (simp add: session_initialized_def init_thread_ids_set)
  have e: "init_current_conversation c s = Inr s"
    using assms by (simp add: session_initialized_def init_current_conversation_set)
  have f: "init_waiting_state s = s"
    using assms by (simp add: session_initialized_def init_waiting_state_set)
  show ?thesis
    by (simp add: initialize_demo_session_def before_bootstrap_def a b d e f)
qed

lemma init_episodic_orchestrator_fields:
  "thread_ids (init_episodic_orchestrator c s) = thread_ids s"
  "current_thread_id (init_episodic_orchestrator c s) = current_thread_id s"
  by (simp_all add: init_episodic_orchestrator_def split: sum.splits)

lemma init_defaults_fields:
  "thread_ids (init_defaults s) = thread_ids s"
  "current_thread_id (init_defaults s) = current_thread_id s"
  by (simp_all add: init_defaults_def init_thread_files_def init_uploaded_files_def
      init_uploaded_file_path_def init_uploaded_file_hash_def init_uploaded_file_name_def
      init_use_episodic_learning_def init_processed_content_hashes_def init_expander_states_def)

lemma init_waiting_state_fields:
  "thread_ids (init_waiting_state s) = thread_ids s"
  "current_thread_id (init_waiting_state s) = current_thread_id s"
  "messages (init_waiting_state s) = messages s"
  "processed_message_ids (init_waiting_state s) = processed_message_ids s"
  "processed_tools_ids (init_waiting_state s) = processed_tools_ids s"
  by (simp_all add: init_waiting_state_def Let_def)

lemma before_bootstrap_current:
  "before_bootstrap c s = Inr s1 \<Longrightarrow> current_thread_id s1 = current_thread_id s"
  by (auto simp: before_bootstrap_def init_thread_ids_def init_defaults_fields
      init_episodic_orchestrator_fields split: if_splits sum.splits)

lemma before_bootstrap_roster:
  "before_bootstrap c s = Inr s1 \<Longrightarrow>
   (thread_ids s \<noteq> None \<and> thread_ids s1 = thread_ids s)
   \<or> (thread_ids s = None \<and> (\<exists>r. load_thread_ids c = Inr r \<and> thread_ids s1 = Some r))"
  by (auto simp: before_bootstrap_def init_thread_ids_def init_defaults_fields
      init_episodic_orchestrator_fields split: if_splits sum.splits)

lemma before_bootstrap_loads:
  "thread_ids s = None \<Longrightarrow> load_thread_ids c = Inr r \<Longrightarrow>
   \<exists>s1. before_bootstrap c s = Inr s1 \<and> thread_ids s1 = Some r"
  by (simp add: before_bootstrap_def init_thread_ids_def init_defaults_fields
      init_episodic_orchestrator_fields)

lemma before_bootstrap_raises:
  "thread_ids s = None \<Longrightarrow> load_thread_ids c = Inl e \<Longrightarrow> initialize_demo_session c s = Inl e"
  by (simp add: initialize_demo_session_def before_bootstrap_def init_thread_ids_def init_defaults_fields
      init_episodic_orchestrator_fields)

lemma fallback_conversation_fields:
  "current_thread_id (fallback_conversation c t s) = Some (thread_id t)"
  "messages (fallback_conversation c t s) = Some [get_welcome_message c]"
  "processed_message_ids (fallback_conversation c t s) = Some {}"
  "processed_tools_ids (fallback_conversation c t s) = Some {}"
  "thread_ids (fallback_conversation c t s) = thread_ids s"
  by (simp_all add: fallback_conversation_def)

lemma init_current_conversation_fallback:
  assumes "current_thread_id s1 = None" and "thread_ids s1 = Some r" and "r \<noteq> []"
    and "create_app c = Inl e
         \<or> (\<exists>a e' s'. create_app c = Inr a
              \<and> load_conversation c (thread_id (last r)) (Some a) s1 = (Some e', s'))"
  shows "\<exists>s'. init_current_conversation c s1 = Inr (fallback_conversation c (last r) s')"
  using assms by (auto simp: init_current_conversation_def Let_def)

subsection \<open>The sidebar\<close>

lemma conversation_buttons_no_select:
  "\<forall>t. click \<noteq> SelectThread t \<Longrightarrow> conversation_buttons c a click l s = Inr (s', rr) \<Longrightarrow> s' = s"
  by (induction l) (auto simp: Let_def split: option.splits if_splits)

lemma conversation_buttons_delete_fires:
  "current_thread_id s = Some cur \<Longrightarrow> tid \<in> set (map thread_id l) \<Longrightarrow>
   conversation_buttons c a (DeleteThread tid) l s = Inr (s, True)"
  by (induction l) (auto simp: Let_def)

lemma conversation_buttons_select_fires:
  "current_thread_id s = Some cur \<Longrightarrow> tid \<noteq> cur \<Longrightarrow> tid \<in> set (map thread_id l) \<Longrightarrow>
   conversation_buttons c a (SelectThread tid) l s =
     (case load_conversation c tid a s of (None, s') \<Rightarrow> Inr (s', True) | (Some e, s') \<Rightarrow> Inl e)"
  by (induction l) (auto simp: Let_def)

lemma conversation_buttons_select_result:
  "conversation_buttons c a (SelectThread tid) l s = Inr (s', rr) \<Longrightarrow>
   s' = s \<or> (tid \<in> set (map thread_id l) \<and> load_conversation c tid a s = (None, s'))"
  by (induction l) (auto simp: Let_def split: option.splits if_splits prod.splits)

lemma display_sidebar_result:
  assumes "display_sidebar c a click s = Inr (s', rr)"
  shows "s' = s \<or> (\<exists>tid r. click = SelectThread tid \<and> thread_ids s = Some r
            \<and> tid \<in> set (map thread_id r) \<and> load_conversation c tid a s = (None, s'))"
proof (cases "\<exists>t. click = SelectThread t")
  case True
  then obtain tid where t: "click = SelectThread tid" by blast
  from assms t obtain r where r: "thread_ids s = Some r"
    and d: "(r \<noteq> [] \<and> conversation_buttons c a (SelectThread tid) (rev r) s = Inr (s', rr)) \<or> s' = s"
    by (auto simp: display_sidebar_def display_conversation_list_def split: option.splits if_splits)
  from d show ?thesis
  proof
    assume "r \<noteq> [] \<and> conversation_buttons c a (SelectThread tid) (rev r) s = Inr (s', rr)"
    then have "s' = s \<or> (tid \<in> set (map thread_id (rev r)) \<and> load_conversation c tid a s = (None, s'))"
      using conversation_buttons_select_result by blast
    then show ?thesis using t r by auto
  next
    assume "s' = s" then show ?thesis by simp
  qed
next
  case False
  then have ns: "\<forall>t. click \<noteq> SelectThread t" by blast
  have "s' = s"
    using assms conversation_buttons_no_select [OF ns]
    by (auto simp: display_sidebar_def display_conversation_list_def split: option.splits if_splits)
  then show ?thesis by simp
qed

lemma display_sidebar_new_task: "display_sidebar c a NewTask s = Inr (s, True)"
  by (simp add: display_sidebar_def)

lemma display_sidebar_delete:
  assumes "thread_ids s = Some r" and "current_thread_id s = Some cur"
    and "tid \<in> set (map thread_id r)"
  shows "display_sidebar c a (DeleteThread tid) s = Inr (s, True)"
proof -
  have ne: "r \<noteq> []" using assms(3) by auto
  have "tid \<in> set (map thread_id (rev r))" using assms(3) by simp
  then have "conversation_buttons c a (DeleteThread tid) (rev r) s = Inr (s, True)"
    using assms(2) by (rule conversation_buttons_delete_fires [rotated])
  then show ?thesis
    by (simp add: display_sidebar_def display_conversation_list_def assms(1) ne)
qed

lemma display_sidebar_select:
  assumes "thread_ids s = Some r" and "current_thread_id s = Some cur"
    and "tid \<in> set (map thread_id r)" and "tid \<noteq> cur"
  shows "display_sidebar c a (SelectThread tid) s =
     (case load_conversation c tid a s of (None, s') \<Rightarrow> Inr (s', True) | (Some e, s') \<Rightarrow> Inl e)"
proof -
  have ne: "r \<noteq> []" using assms(3) by auto
  have "tid \<in> set (map thread_id (rev r))" using assms(3) by simp
  with assms(2,4) have "conversation_buttons c a (SelectThread tid) (rev r) s =
     (case load_conversation c tid a s of (None, s') \<Rightarrow> Inr (s', True) | (Some e, s') \<Rightarrow> Inl e)"
    by (rule conversation_buttons_select_fires)
  then show ?thesis
    by (simp add: display_sidebar_def display_conversation_list_def assms(1) ne)
qed

lemma main_rerun:
  assumes "session_initialized s"
    and "display_sidebar c (case create_app c of Inr a \<Rightarrow> Some a | Inl e \<Rightarrow> None) click s = Inr (s', True)"
  shows "main c click s = Inr (Rerun s')"
  using assms(2) by (simp add: main_def init_noop [OF assms(1)] Let_def)

subsection \<open>Referential integrity of the roster\<close>

lemma display_sidebar_integrity:
  assumes ok: "collaborators_ok c" and ri: "roster_integrity s"
    and d: "display_sidebar c a click s = Inr (s', rr)"
  shows "roster_integrity s'"
proof -
  from display_sidebar_result [OF d] show ?thesis
  proof
    assume "s' = s" with ri show ?thesis by simp
  next
    assume "\<exists>tid r. click = SelectThread tid \<and> thread_ids s = Some r
            \<and> tid \<in> set (map thread_id r) \<and> load_conversation c tid a s = (None, s')"
    then obtain tid r where r: "thread_ids s = Some r" and m: "tid \<in> set (map thread_id r)"
      and l: "load_conversation c tid a s = (None, s')" by blast
    have 1: "thread_ids (snd (load_conversation c tid a s)) = thread_ids s"
      using ok by (simp add: collaborators_ok_def)
    have 2: "fst (load_conversation c tid a s) = None
            \<longrightarrow> current_thread_id (snd (load_conversation c tid a s)) = Some tid"
      using ok by (simp add: collaborators_ok_def)
    from 1 2 l r have "thread_ids s' = Some r" "current_thread_id s' = Some tid" by simp_all
    with m show ?thesis by (simp add: roster_integrity_def)
  qed
qed

lemma init_current_conversation_integrity:
  assumes ok: "collaborators_ok c" and cur: "current_thread_id s1 = None"
    and r: "thread_ids s1 = Some r"
    and i: "init_current_conversation c s1 = Inr s2"
  shows "roster_integrity s2"
proof (cases "r = []")
  case True
  from i cur r True obtain new_conv r' where
    n: "create_new_conversation c = Inr new_conv" and l: "load_thread_ids_after_create c = Inr r'"
    and s2: "thread_ids s2 = Some r'" "current_thread_id s2 = Some (new_thread_id new_conv)"
    by (auto simp: init_current_conversation_def split: sum.splits)
  have "r' = [] \<or> new_thread_id new_conv \<in> set (map thread_id r')"
    using ok n l by (simp add: collaborators_ok_def)
  with s2 show ?thesis by (simp add: roster_integrity_def)
next
  case False
  then have lr: "thread_id (last r) \<in> set (map thread_id r)" by simp
  have 1: "thread_ids (snd (load_conversation c tid a s)) = thread_ids s" for tid a s
    using ok by (simp add: collaborators_ok_def)
  have 2: "fst (load_conversation c tid a s) = None
            \<Longrightarrow> current_thread_id (snd (load_conversation c tid a s)) = Some tid" for tid a s
    using ok by (simp add: collaborators_ok_def)
  show ?thesis
  proof (cases "create_app c")
    case (Inl e)
    with i cur r False have "s2 = fallback_conversation c (last r) s1"
      by (simp add: init_current_conversation_def Let_def)
    with r lr show ?thesis
      by (simp add: roster_integrity_def fallback_conversation_fields)
  next
    case (Inr a)
    obtain res s' where lc: "load_conversation c (thread_id (last r)) (Some a) s1 = (res, s')"
      by (cases "load_conversation c (thread_id (last r)) (Some a) s1") auto
    have t: "thread_ids s' = Some r" using 1 [of "thread_id (last r)" "Some a" s1] lc r by simp
    show ?thesis
    proof (cases res)
      case None
      with i cur r False Inr lc have "s2 = s'"
        by (simp add: init_current_conversation_def Let_def)
      moreover have "current_thread_id s' = Some (thread_id (last r))"
        using 2 [of "thread_id (last r)" "Some a" s1] lc None by simp
      ultimately show ?thesis using t lr by (simp add: roster_integrity_def)
    next
      case (Some e)
      with i cur r False Inr lc have "s2 = fallback_conversation c (last r) s'"
        by (simp add: init_current_conversation_def Let_def)
      with t lr show ?thesis
        by (simp add: roster_integrity_def fallback_conversation_fields)
    qed
  qed
qed

lemma init_waiting_state_integrity:
  "roster_integrity (init_waiting_state s) = roster_integrity s"
  by (simp add: roster_integrity_def init_waiting_state_fields split: option.splits)

lemma initialize_integrity:
  assumes ok: "collaborators_ok c"
    and pre: "current_thread_id s = None \<or> roster_integrity s"
    and i: "initialize_demo_session c s = Inr s'"
  shows "roster_integrity s'"
proof -
  from i obtain s1 s2 where b: "before_bootstrap c s = Inr s1"
    and ic: "init_current_conversation c s1 = Inr s2" and s': "s' = init_waiting_state s2"
    by (auto simp: initialize_demo_session_def split: sum.splits)
  have c1: "current_thread_id s1 = current_thread_id s" using b by (rule before_bootstrap_current)
  show ?thesis
  proof (cases "current_thread_id s")
    case None
    from before_bootstrap_roster [OF b] obtain r where r: "thread_ids s1 = Some r" by auto
    have "roster_integrity s2"
      using ok _ r ic by (rule init_current_conversation_integrity) (simp add: c1 None)
    then show ?thesis by (simp add: s' init_waiting_state_integrity)
  next
    case (Some cur)
    with pre have ri: "roster_integrity s" by simp
    then have "thread_ids s \<noteq> None" by (auto simp: roster_integrity_def split: option.splits)
    with before_bootstrap_roster [OF b] have t: "thread_ids s1 = thread_ids s" by auto
    have "s2 = s1" using ic c1 Some by (simp add: init_current_conversation_def)
    then have "roster_integrity s2" using ri t c1 by (simp add: roster_integrity_def split: option.splits)
    then show ?thesis by (simp add: s' init_waiting_state_integrity)
  qed
qed

subsection \<open>The demo store\<close>

text \<open>A first run over the demo store, from the empty session, ends in \<open>demo_session\<close>.\<close>

lemma demo_init: "session_initialized demo_session"
  by (simp add: session_initialized_def demo_session_def)

lemma demo_fields:
  "thread_ids demo_session = Some demo_roster"
  "current_thread_id demo_session = Some ''t2''"
  "waiting_for_approval demo_session = Some False"
  "messages demo_session = Some [demo_welcome]"
  by (simp_all add: demo_session_def)

lemma demo_roster_ids: "map thread_id demo_roster = [''t1'', ''t2'']"
  by (simp add: demo_roster_def)

lemma demo_app: "create_app demo_collaborators = Inr App"
  by (simp add: demo_collaborators_def)

lemma demo_load_t1:
  "thread_ids s = Some demo_roster \<Longrightarrow>
   load_conversation demo_collaborators ''t1'' a s =
     (None, s\<lparr>current_thread_id := Some ''t1'',
               messages := Some [demo_welcome, \<lparr>role = ''user'', content = ''hello''\<rparr>],
               processed_message_ids := Some {}, processed_tools_ids := Some {}\<rparr>)"
  by (simp add: demo_collaborators_def spec_load_conversation_def demo_store_def)

lemma spec_load_conversation_ok:
  "thread_ids (snd (spec_load_conversation store tid a s)) = thread_ids s"
  "fst (spec_load_conversation store tid a s) = None
     \<Longrightarrow> current_thread_id (snd (spec_load_conversation store tid a s)) = Some tid"
  by (simp_all add: spec_load_conversation_def split: option.splits)

lemma demo_collaborators_ok: "collaborators_ok demo_collaborators"
  by (simp add: collaborators_ok_def demo_collaborators_def spec_load_conversation_ok
      spec_create_new_conversation_def)

lemma demo_before_bootstrap:
  "before_bootstrap demo_collaborators empty_session =
     Inr (empty_session\<lparr>episodic_orchestrator := Some (Some (Orchestrator 0)),
        thread_files := Some [], uploaded_files := Some [], uploaded_file_path := Some None,
        uploaded_file_hash := Some None, uploaded_file_name := Some None,
        use_episodic_learning := Some True, processed_content_hashes := Some {},
        expander_states := Some [(''progress_expander'', True), (''show_progress_content'', False)],
        thread_ids := Some demo_roster\<rparr>)"
proof -
  have a: "init_episodic_orchestrator demo_collaborators empty_session
           = empty_session\<lparr>episodic_orchestrator := Some (Some (Orchestrator 0))\<rparr>"
    by (simp add: init_episodic_orchestrator_def empty_session_def demo_collaborators_def)
  have e: "thread_files empty_session = None" "uploaded_files empty_session = None"
    "uploaded_file_path empty_session = None" "uploaded_file_hash empty_session = None"
    "uploaded_file_name empty_session = None" "use_episodic_learning empty_session = None"
    "processed_content_hashes empty_session = None" "expander_states empty_session = None"
    "thread_ids empty_session = None"
    by (simp_all add: empty_session_def)
  have l: "load_thread_ids demo_collaborators = Inr demo_roster" by (simp add: demo_collaborators_def)
  show ?thesis
    unfolding before_bootstrap_def a init_defaults_def
    by (simp add: init_thread_files_def init_uploaded_files_def init_uploaded_file_path_def
        init_uploaded_file_hash_def init_uploaded_file_name_def init_use_episodic_learning_def
        init_processed_content_hashes_def init_expander_states_def init_thread_ids_def e l)
qed

lemma demo_bootstrap: "initialize_demo_session demo_collaborators empty_session = Inr demo_session"
proof -
  let ?s1 = "empty_session\<lparr>episodic_orchestrator := Some (Some (Orchestrator 0)),
        thread_files := Some [], uploaded_files := Some [], uploaded_file_path := Some None,
        uploaded_file_hash := Some None, uploaded_file_name := Some None,
        use_episodic_learning := Some True, processed_content_hashes := Some {},
        expander_states := Some [(''progress_expander'', True), (''show_progress_content'', False)],
        thread_ids := Some demo_roster\<rparr>"
  let ?s2 = "?s1\<lparr>current_thread_id := Some ''t2'', messages := Some [demo_welcome],
                  processed_message_ids := Some {}, processed_tools_ids := Some {}\<rparr>"
  have e: "current_thread_id empty_session = None" "waiting_for_approval empty_session = None"
    "current_plan empty_session = None" "approval_interrupted empty_session = None"
    by (simp_all add: empty_session_def)
  have l: "load_conversation demo_collaborators ''t2'' (Some App) ?s1 = (None, ?s2)"
    by (simp add: demo_collaborators_def spec_load_conversation_def demo_store_def)
  have t: "last demo_roster = \<lparr>thread_id = ''t2'', title = ''Second task''\<rparr>" "demo_roster \<noteq> []"
    by (simp_all add: demo_roster_def)
  have i: "init_current_conversation demo_collaborators ?s1 = Inr ?s2"
    by (simp add: init_current_conversation_def e t demo_app l)
  have w: "init_waiting_state ?s2 = demo_session"
    by (simp add: init_waiting_state_def e demo_session_def empty_session_def)
  show ?thesis
    by (simp add: initialize_demo_session_def demo_before_bootstrap i w)
qed

subsection \<open>Claims about the session controller\<close>

text \<open>
  C6 (as amended). When the roster is not empty and loading its most recent conversation
  fails during the bootstrap, that is \<open>create_app\<close> or \<open>load_conversation\<close> raises, the
  initialisation still returns: \<open>current_thread_id\<close> is the id of the most recent roster
  entry, \<open>messages\<close> is exactly the welcome message, and both processed-id sets are empty.
\<close>

theorem bootstrap_fallback:
  assumes "before_bootstrap c s = Inr s1"
    and "current_thread_id s1 = None"
    and "thread_ids s1 = Some r" and "r \<noteq> []"
    and "create_app c = Inl e
         \<or> (\<exists>a e' s'. create_app c = Inr a
              \<and> load_conversation c (thread_id (last r)) (Some a) s1 = (Some e', s'))"
  shows "\<exists>s2. initialize_demo_session c s = Inr s2
            \<and> current_thread_id s2 = Some (thread_id (last r))
            \<and> messages s2 = Some [get_welcome_message c]
            \<and> processed_message_ids s2 = Some {}
            \<and> processed_tools_ids s2 = Some {}"
proof -
  from init_current_conversation_fallback [OF assms(2-5)]
  obtain s' where f: "init_current_conversation c s1 = Inr (fallback_conversation c (last r) s')"
    by blast
  have "initialize_demo_session c s = Inr (init_waiting_state (fallback_conversation c (last r) s'))"
    by (simp add: initialize_demo_session_def assms(1) f)
  then show ?thesis
    by (simp add: init_waiting_state_fields fallback_conversation_fields)
qed

theorem bootstrap_fallback_witness:
  "\<exists>s2. initialize_demo_session
           (demo_collaborators\<lparr>load_conversation := failing_load_conversation\<rparr>) empty_session = Inr s2
       \<and> current_thread_id s2 = Some ''t2''
       \<and> messages s2 = Some [demo_welcome]
       \<and> processed_message_ids s2 = Some {}
       \<and> processed_tools_ids s2 = Some {}"
proof -
  let ?c = "demo_collaborators\<lparr>load_conversation := failing_load_conversation\<rparr>"
  have l: "load_thread_ids ?c = Inr demo_roster" by (simp add: demo_collaborators_def)
  have e: "thread_ids empty_session = None" "current_thread_id empty_session = None"
    by (simp_all add: empty_session_def)
  from before_bootstrap_loads [OF e(1) l]
  obtain s1 where b: "before_bootstrap ?c empty_session = Inr s1" and r: "thread_ids s1 = Some demo_roster"
    by blast
  have cur: "current_thread_id s1 = None"
    using before_bootstrap_current [OF b] e(2) by simp
  have ne: "demo_roster \<noteq> []" by (simp add: demo_roster_def)
  have f: "create_app ?c = Inl (Raised [])
         \<or> (\<exists>a e' s'. create_app ?c = Inr a
              \<and> load_conversation ?c (thread_id (last demo_roster)) (Some a) s1 = (Some e', s'))"
    by (simp add: demo_collaborators_def failing_load_conversation_def)
  have t: "thread_id (last demo_roster) = ''t2''" by (simp add: demo_roster_def)
  have w: "get_welcome_message ?c = demo_welcome" by (simp add: demo_collaborators_def)
  show ?thesis
    using bootstrap_fallback [OF b cur r ne f] unfolding t w .
qed

text \<open>
  The claim as written fails for the other persistence calls: \<open>load_thread_ids\<close> is called
  outside any \<open>try\<close>, so when it raises on a fresh session the exception leaves
  \<open>initialize_demo_session\<close>.
\<close>

theorem bootstrap_unguarded_counterexample:
  "initialize_demo_session
     (demo_collaborators\<lparr>load_thread_ids := Inl (Raised ''database is locked'')\<rparr>) empty_session
   = Inl (Raised ''database is locked'')"
proof -
  have "thread_ids empty_session = None" by (simp add: empty_session_def)
  moreover have "load_thread_ids (demo_collaborators\<lparr>load_thread_ids := Inl (Raised ''database is locked'')\<rparr>)
     = Inl (Raised ''database is locked'')" by simp
  ultimately show ?thesis by (rule before_bootstrap_raises)
qed

text \<open>
  C7 (as amended). The New Task button is always available and only ends the run with
  \<open>st.rerun()\<close>: the session state is returned as it was, and on an initialised session
  the whole run of \<open>main\<close> leaves \<open>current_thread_id\<close>, the roster and \<open>messages\<close>
  unchanged. No thread is created.
\<close>

theorem new_task_only_reruns:
  "display_sidebar c a NewTask s = Inr (s, True)
   \<and> (session_initialized s \<longrightarrow> main c NewTask s = Inr (Rerun s))"
  by (simp add: display_sidebar_new_task main_rerun)

theorem new_task_only_reruns_witness:
  "session_initialized demo_session
   \<and> main demo_collaborators NewTask demo_session = Inr (Rerun demo_session)"
  using demo_init new_task_only_reruns [of demo_collaborators _ demo_session] by simp

text \<open>
  The claim as written fails: persistence would hand out a thread \<open>t3\<close>, and after New
  Task the roster still has its two entries and \<open>t2\<close> is still current.
\<close>

theorem new_task_counterexample:
  "create_new_conversation demo_collaborators = Inr (spec_create_new_conversation ''t3'' demo_welcome)
   \<and> thread_ids demo_session = Some demo_roster
   \<and> current_thread_id demo_session = Some ''t2''
   \<and> main demo_collaborators NewTask demo_session = Inr (Rerun demo_session)"
proof -
  have "main demo_collaborators NewTask demo_session = Inr (Rerun demo_session)"
    using demo_init display_sidebar_new_task by (rule main_rerun)
  then show ?thesis by (simp add: demo_fields demo_collaborators_def)
qed

text \<open>
  C8 (as amended). For collaborators that keep their contract, a completed run of \<open>main\<close>
  from a session that is fresh (no current thread) or has referential integrity ends in a
  session with referential integrity: the roster is loaded, a current thread is assigned,
  and if the roster is not empty the current thread is one of its entries. A press on a
  delete button of an initialised session changes nothing: no thread is removed and the
  session state after the run is the one before, so no dangling \<open>current_thread_id\<close>
  arises.
\<close>

theorem roster_integrity_after_transition:
  assumes "collaborators_ok c"
    and "current_thread_id s = None \<or> roster_integrity s"
    and "main c click s = Inr res"
  shows "roster_integrity (state_after res)
       \<and> (session_initialized s \<and> click = DeleteThread tid \<longrightarrow> state_after res = s)"
proof -
  let ?a = "case create_app c of Inr a \<Rightarrow> Some a | Inl e \<Rightarrow> None"
  from assms(3) obtain s1 s2 rr where i: "initialize_demo_session c s = Inr s1"
    and d: "display_sidebar c ?a click s1 = Inr (s2, rr)" and st: "state_after res = s2"
    by (auto simp: main_def Let_def split: sum.splits if_splits option.splits)
  have "roster_integrity s1" using assms(1,2) i by (rule initialize_integrity)
  with assms(1) have a: "roster_integrity s2" using d by (rule display_sidebar_integrity)
  have b: "s2 = s" if "session_initialized s" "click = DeleteThread tid"
  proof -
    have "s1 = s" using i init_noop [OF that(1), of c] by simp
    moreover have "s2 = s1" using display_sidebar_result [OF d] that(2) by auto
    ultimately show ?thesis by simp
  qed
  from a b st show ?thesis by simp
qed

theorem roster_integrity_after_transition_witness:
  "collaborators_ok demo_collaborators
   \<and> roster_integrity demo_session
   \<and> main demo_collaborators (SelectThread ''t1'') demo_session
       = Inr (Rerun (demo_session\<lparr>current_thread_id := Some ''t1'',
                messages := Some [demo_welcome, \<lparr>role = ''user'', content = ''hello''\<rparr>],
                processed_message_ids := Some {}, processed_tools_ids := Some {}\<rparr>))
   \<and> roster_integrity (demo_session\<lparr>current_thread_id := Some ''t1'',
                messages := Some [demo_welcome, \<lparr>role = ''user'', content = ''hello''\<rparr>],
                processed_message_ids := Some {}, processed_tools_ids := Some {}\<rparr>)"
proof -
  let ?s' = "demo_session\<lparr>current_thread_id := Some ''t1'',
                messages := Some [demo_welcome, \<lparr>role = ''user'', content = ''hello''\<rparr>],
                processed_message_ids := Some {}, processed_tools_ids := Some {}\<rparr>"
  have ri: "roster_integrity demo_session"
    by (simp add: roster_integrity_def demo_fields demo_roster_ids)
  have h3: "''t1'' \<in> set (map thread_id demo_roster)" by (simp add: demo_roster_ids)
  have h4: "''t1'' \<noteq> ''t2''" by simp
  have "display_sidebar demo_collaborators (Some App) (SelectThread ''t1'') demo_session = Inr (?s', True)"
    using display_sidebar_select [OF demo_fields(1) demo_fields(2) h3 h4, of demo_collaborators "Some App"]
    by (simp add: demo_load_t1 [OF demo_fields(1)])
  then have m: "main demo_collaborators (SelectThread ''t1'') demo_session = Inr (Rerun ?s')"
    using demo_init by (intro main_rerun) (simp_all add: demo_app)
  have pre: "current_thread_id demo_session = None \<or> roster_integrity demo_session"
    using ri by simp
  show ?thesis
    using demo_collaborators_ok ri m
      roster_integrity_after_transition [OF demo_collaborators_ok pre m]
    by simp
qed

text \<open>
  The claim as written fails in its second part: after the delete button of the active
  thread \<open>t2\<close> is pressed, \<open>t2\<close> is still in the roster and still current; no other
  entry and no new thread became current.
\<close>

theorem delete_active_thread_counterexample:
  "current_thread_id demo_session = Some ''t2''
   \<and> thread_ids demo_session = Some demo_roster
   \<and> map thread_id demo_roster = [''t1'', ''t2'']
   \<and> main demo_collaborators (DeleteThread ''t2'') demo_session = Inr (Rerun demo_session)"
proof -
  have h3: "''t2'' \<in> set (map thread_id demo_roster)" by (simp add: demo_roster_ids)
  have "display_sidebar demo_collaborators (Some App) (DeleteThread ''t2'') demo_session
        = Inr (demo_session, True)"
    using demo_fields(1) demo_fields(2) h3 by (rule display_sidebar_delete)
  then have "main demo_collaborators (DeleteThread ''t2'') demo_session = Inr (Rerun demo_session)"
    using demo_init by (intro main_rerun) (simp_all add: demo_app)
  then show ?thesis by (simp add: demo_fields demo_roster_ids)
qed

text \<open>
  C9 (as amended). The flag \<open>waiting_for_approval\<close> is never consulted by the sidebar.
  Whatever its value \<open>w\<close>, pressing the button of a roster thread that is not current
  calls \<open>load_conversation\<close> and takes over its result, and New Task and a delete button
  end the run with \<open>st.rerun()\<close> and the session state as it was.
\<close>

theorem approval_flag_not_consulted:
  assumes "thread_ids s = Some r" and "current_thread_id s = Some cur"
    and "tid \<in> set (map thread_id r)" and "tid \<noteq> cur"
  shows "display_sidebar c a (SelectThread tid) (s\<lparr>waiting_for_approval := w\<rparr>) =
           (case load_conversation c tid a (s\<lparr>waiting_for_approval := w\<rparr>) of
              (None, s') \<Rightarrow> Inr (s', True)
            | (Some e, s') \<Rightarrow> Inl e)
       \<and> display_sidebar c a NewTask (s\<lparr>waiting_for_approval := w\<rparr>)
           = Inr (s\<lparr>waiting_for_approval := w\<rparr>, True)
       \<and> display_sidebar c a (DeleteThread tid) (s\<lparr>waiting_for_approval := w\<rparr>)
           = Inr (s\<lparr>waiting_for_approval := w\<rparr>, True)"
proof -
  let ?s = "s\<lparr>waiting_for_approval := w\<rparr>"
  have r: "thread_ids ?s = Some r" and cur: "current_thread_id ?s = Some cur"
    using assms(1,2) by simp_all
  from r cur assms(3,4) have 1: "display_sidebar c a (SelectThread tid) ?s =
           (case load_conversation c tid a ?s of
              (None, s') \<Rightarrow> Inr (s', True)
            | (Some e, s') \<Rightarrow> Inl e)"
    by (rule display_sidebar_select)
  have 2: "display_sidebar c a NewTask ?s = Inr (?s, True)"
    by (rule display_sidebar_new_task)
  from r cur assms(3) have 3: "display_sidebar c a (DeleteThread tid) ?s = Inr (?s, True)"
    by (rule display_sidebar_delete)
  from 1 2 3 show ?thesis by (intro conjI)
qed

theorem approval_flag_not_consulted_witness:
  "thread_ids demo_session = Some demo_roster \<and> current_thread_id demo_session = Some ''t2''
   \<and> ''t1'' \<in> set (map thread_id demo_roster) \<and> ''t1'' \<noteq> ''t2''
   \<and> display_sidebar demo_collaborators (Some App) NewTask (demo_session\<lparr>waiting_for_approval := Some True\<rparr>)
       = Inr (demo_session\<lparr>waiting_for_approval := Some True\<rparr>, True)
   \<and> display_sidebar demo_collaborators (Some App) (DeleteThread ''t1'')
        (demo_session\<lparr>waiting_for_approval := Some True\<rparr>)
       = Inr (demo_session\<lparr>waiting_for_approval := Some True\<rparr>, True)"
proof -
  have h3: "''t1'' \<in> set (map thread_id demo_roster)" by (simp add: demo_roster_ids)
  have h4: "''t1'' \<noteq> ''t2''" by simp
  show ?thesis
    using h3 h4 demo_fields(1,2)
      approval_flag_not_consulted [OF demo_fields(1) demo_fields(2) h3 h4,
        of demo_collaborators "Some App" "Some True"]
    by simp
qed

text \<open>
  The claim as written fails: with the flag set, selecting \<open>t1\<close> is not refused; the
  conversation is loaded and \<open>current_thread_id\<close> moves from \<open>t2\<close> to \<open>t1\<close>.
\<close>

theorem approval_gate_counterexample:
  "waiting_for_approval demo_waiting = Some True
   \<and> current_thread_id demo_waiting = Some ''t2''
   \<and> display_sidebar demo_collaborators (Some App) (SelectThread ''t1'') demo_waiting
       = Inr (demo_waiting\<lparr>current_thread_id := Some ''t1'',
                messages := Some [demo_welcome, \<lparr>role = ''user'', content = ''hello''\<rparr>],
                processed_message_ids := Some {}, processed_tools_ids := Some {}\<rparr>, True)"
proof -
  have r: "thread_ids demo_waiting = Some demo_roster"
    and cur: "current_thread_id demo_waiting = Some ''t2''"
    and w: "waiting_for_approval demo_waiting = Some True"
    by (simp_all add: demo_waiting_def demo_fields)
  have h3: "''t1'' \<in> set (map thread_id demo_roster)" by (simp add: demo_roster_ids)
  have h4: "''t1'' \<noteq> ''t2''" by simp
  show ?thesis
    using display_sidebar_select [OF r cur h3 h4, of demo_collaborators "Some App"] w cur
    by (simp add: demo_load_t1 [OF r])
qed

text \<open>
  C10. Every write of \<open>initialize_demo_session\<close> sits under a test that a key is missing
  from the session state. On a session in which the fourteen tested keys are set, the
  initialisation returns the session unchanged, whatever the collaborators would do; so
  running it again on every rerender changes nothing.
\<close>

theorem initialize_idempotent:
  assumes "session_initialized s"
  shows "initialize_demo_session c s = Inr s"
  using assms by (rule init_noop)

theorem initialize_idempotent_witness:
  "session_initialized demo_session \<and> initialize_demo_session demo_collaborators demo_session = Inr demo_session"
  using demo_init initialize_idempotent [OF demo_init, of demo_collaborators] by simp

end
